theory Spec2Isabelle
  imports Complex_Main "HOL-Library.Multiset"
begin

section \<open>Values of the Go program\<close>

text \<open>
  \<^verbatim>\<open>type Item int\<close> (arm.go). The integers of the program are ids of items and
  counts of items and of input lines, far from the bounds of Go's 64-bit
  \<^verbatim>\<open>int\<close>; they are modelled by \<^typ>\<open>int\<close>.
\<close>

type_synonym Item = int

text \<open>
  A \<^verbatim>\<open>float64\<close> is a finite number, an infinity or a NaN. The comparison
  operators follow IEEE 754 as Go's do: every ordered comparison with a NaN is false,
  and \<^verbatim>\<open>!=\<close> with a NaN is true. The two zeros are one value here, which
  is how the comparisons of the program see them.
\<close>

datatype float64 = Finite real | PosInf | NegInf | NaN

fun f64_lt :: "float64 \<Rightarrow> float64 \<Rightarrow> bool" where
  "f64_lt (Finite a) (Finite b) = (a < b)"
| "f64_lt (Finite a) PosInf = True"
| "f64_lt NegInf (Finite b) = True"
| "f64_lt NegInf PosInf = True"
| "f64_lt _ _ = False"

definition f64_gt :: "float64 \<Rightarrow> float64 \<Rightarrow> bool" where
  "f64_gt a b = f64_lt b a"

definition f64_ne :: "float64 \<Rightarrow> float64 \<Rightarrow> bool" where
  "f64_ne a b = (a = NaN \<or> b = NaN \<or> a \<noteq> b)"

text \<open>
  Go's \<^verbatim>\<open>error\<close> values: the three sentinels of the package, and the errors
  of the \<^verbatim>\<open>os\<close> and \<^verbatim>\<open>bufio\<close> packages, which the program only
  passes on.
\<close>

datatype go_error =
    ErrMinSupportOutOfRange
  | ErrMinConfidenceOutOfRange
  | ErrMinLiftOutOfRange
  | IOError string

section \<open>Arguments and their validation\<close>

record Arguments =
  Input :: string
  Output :: string
  MinSupport :: float64
  MinConfidence :: float64
  MinLift :: float64
  ItemsetsPath :: string

definition Validate :: "Arguments \<Rightarrow> go_error option" where
  "Validate args =
     (if f64_lt (MinSupport args) (Finite 0) \<or> f64_gt (MinSupport args) (Finite 1)
      then Some ErrMinSupportOutOfRange
      else if f64_lt (MinConfidence args) (Finite 0) \<or> f64_gt (MinConfidence args) (Finite 1)
      then Some ErrMinConfidenceOutOfRange
      else if f64_ne (MinLift args) (Finite 0) \<and> f64_lt (MinLift args) (Finite 1)
      then Some ErrMinLiftOutOfRange
      else None)"

section \<open>Interner and frequency counter\<close>

text \<open>
  Modelled from the spec: the type \<^verbatim>\<open>itemCount\<close> with
  \<^verbatim>\<open>makeCounts\<close>, \<^verbatim>\<open>increment\<close> and \<^verbatim>\<open>get\<close> is declared
  in a file that is not among the sources. The spec: a mapping from Item to a
  non-negative integer; \<^verbatim>\<open>get(item)\<close> returns 0 for unknown items.
\<close>

type_synonym itemCount = "Item \<rightharpoonup> int"

definition makeCounts :: itemCount where
  "makeCounts = Map.empty"

definition get :: "itemCount \<Rightarrow> Item \<Rightarrow> int" where
  "get c i = (case c i of None \<Rightarrow> 0 | Some n \<Rightarrow> n)"

definition increment :: "itemCount \<Rightarrow> Item \<Rightarrow> int \<Rightarrow> itemCount" where
  "increment c i n = c(i \<mapsto> get c i + n)"

text \<open>
  Modelled from the spec: the \<^verbatim>\<open>Itemizer\<close> (the string interner) is declared in
  a file that is not among the sources. The spec: \<^verbatim>\<open>intern(token)\<close> is idempotent
  and assigns a fresh dense id on first sight; \<^verbatim>\<open>toStr\<close> maps an id back to its
  token; an empty line contributes no items, so the empty token is skipped. The filter
  translates tokens to Items (no id is assigned during the second pass) and keeps those
  that pass the predicate.
\<close>

record Itemizer =
  strToItem :: "string \<rightharpoonup> Item"
  itemToStr :: "Item \<rightharpoonup> string"
  numItems :: int

definition newItemizer :: Itemizer where
  "newItemizer = \<lparr>strToItem = Map.empty, itemToStr = Map.empty, numItems = 0\<rparr>"

definition intern :: "Itemizer \<Rightarrow> string \<Rightarrow> Itemizer \<times> Item" where
  "intern it tok =
     (case strToItem it tok of
        Some i \<Rightarrow> (it, i)
      | None \<Rightarrow>
          (let i = numItems it
           in (it\<lparr>strToItem := (strToItem it)(tok \<mapsto> i),
                  itemToStr := (itemToStr it)(i \<mapsto> tok),
                  numItems := i + 1\<rparr>, i)))"

text \<open>The callback of \<^verbatim>\<open>forEachItem\<close> updates a state \<open>s\<close> of the caller.\<close>

fun forEachItem :: "Itemizer \<Rightarrow> string list \<Rightarrow> (Item \<Rightarrow> 's \<Rightarrow> 's) \<Rightarrow> 's \<Rightarrow> Itemizer \<times> 's" where
  "forEachItem it [] fn s = (it, s)"
| "forEachItem it (tok # toks) fn s =
     (if tok = [] then forEachItem it toks fn s
      else (case intern it tok of (it', i) \<Rightarrow> forEachItem it' toks fn (fn i s)))"

fun filter_tokens :: "Itemizer \<Rightarrow> string list \<Rightarrow> (Item \<Rightarrow> bool) \<Rightarrow> Item list" where
  "filter_tokens it [] keep = []"
| "filter_tokens it (tok # toks) keep =
     (case strToItem it tok of
        None \<Rightarrow> filter_tokens it toks keep
      | Some i \<Rightarrow> (if keep i then i # filter_tokens it toks keep
                  else filter_tokens it toks keep))"

definition toStr :: "Itemizer \<Rightarrow> Item \<Rightarrow> string" where
  "toStr it i = (case itemToStr it i of Some s \<Rightarrow> s | None \<Rightarrow> [])"

text \<open>\<^verbatim>\<open>strings.Split(s, ",")\<close> of Go's standard library.\<close>

fun Split_comma :: "string \<Rightarrow> string list" where
  "Split_comma [] = [[]]"
| "Split_comma (c # cs) =
     (if c = CHR '','' then [] # Split_comma cs
      else (case Split_comma cs of
              [] \<Rightarrow> [[c]]
            | tok # toks \<Rightarrow> (c # tok) # toks))"

section \<open>The FP-tree\<close>

text \<open>
  Modelled from the spec: \<^verbatim>\<open>fpTree\<close>, \<^verbatim>\<open>newTree\<close> and
  \<^verbatim>\<open>Insert\<close> are declared in a file that is not among the sources. The spec's
  nodes refer to each other (parent, children, header chain); here the nodes of a tree
  live in a list and refer to each other by index, the root at index 0. The header table
  \<^verbatim>\<open>itemList\<close> maps an item to the newest node of that item; a Go map has no
  iteration order, the association list fixes one.

  \<^verbatim>\<open>Insert(path, weight)\<close> in the spec: walk from the root; for each item of the
  path look it up among the children of the current node; if present add the weight to
  that child's count; if absent create the child, link its \<^verbatim>\<open>nextInHeader\<close> to
  the previous head of \<^verbatim>\<open>itemList[item]\<close> and make it the new head. The root
  accumulates the total weight, and \<^verbatim>\<open>counts[item]\<close> is the sum of the counts of
  the nodes of that item.
\<close>

record fpNode =
  item :: "Item option"
  count_node :: int
  parent :: "nat option"
  children :: "(Item \<times> nat) list"
  nextInHeader :: "nat option"

record fpTree =
  nodes :: "fpNode list"
  itemList :: "(Item \<times> nat) list"
  counts :: itemCount

definition newTree :: fpTree where
  "newTree =
     \<lparr>nodes = [\<lparr>item = None, count_node = 0, parent = None, children = [], nextInHeader = None\<rparr>],
      itemList = [], counts = makeCounts\<rparr>"

fun set_head :: "Item \<Rightarrow> nat \<Rightarrow> (Item \<times> nat) list \<Rightarrow> (Item \<times> nat) list" where
  "set_head i n [] = [(i, n)]"
| "set_head i n ((j, m) # hs) = (if i = j then (j, n) # hs else (j, m) # set_head i n hs)"

fun insert_path :: "fpTree \<Rightarrow> nat \<Rightarrow> Item list \<Rightarrow> int \<Rightarrow> fpTree" where
  "insert_path t cur [] w = t"
| "insert_path t cur (i # path) w =
     (if length (nodes t) \<le> cur then t
      else
        (let t1 = t\<lparr>counts := increment (counts t) i w\<rparr>;
             here = nodes t ! cur
         in case map_of (children here) i of
              Some c \<Rightarrow>
                (if length (nodes t) \<le> c then t
                 else insert_path
                   (t1\<lparr>nodes := (nodes t)[c := (nodes t ! c)\<lparr>count_node := count_node (nodes t ! c) + w\<rparr>]\<rparr>)
                   c path w)
            | None \<Rightarrow>
                (let n = length (nodes t);
                     child = \<lparr>item = Some i, count_node = w, parent = Some cur, children = [],
                              nextInHeader = map_of (itemList t) i\<rparr>
                 in insert_path
                   (t1\<lparr>nodes := (nodes t)[cur := here\<lparr>children := children here @ [(i, n)]\<rparr>] @ [child],
                        itemList := set_head i n (itemList t)\<rparr>)
                   n path w)))"

definition Insert :: "fpTree \<Rightarrow> Item list \<Rightarrow> int \<Rightarrow> fpTree" where
  "Insert t path w =
     (case nodes t of
        [] \<Rightarrow> t
      | r # ns \<Rightarrow> insert_path (t\<lparr>nodes := r\<lparr>count_node := count_node r + w\<rparr> # ns\<rparr>) 0 path w)"

section \<open>Results of mining\<close>

record itemsetWithCount =
  itemset :: "Item list"
  count_iwc :: int

text \<open>
  A rule with its three measures; the program computes them in \<^verbatim>\<open>float64\<close>.
\<close>

record 'n Rule =
  Antecedent :: "Item list"
  Consequent :: "Item list"
  Support :: 'n
  Confidence :: 'n
  Lift :: 'n

section \<open>What the program takes from outside\<close>

text \<open>
  Arithmetic on \<^verbatim>\<open>float64\<close> rounds, and the conversion to \<^verbatim>\<open>int\<close> of
  a value that \<^verbatim>\<open>int\<close> cannot represent (a NaN, an infinity, a number beyond 64
  bits) depends on the platform. The program is modelled over any such arithmetic: the
  rounded product and quotient, the conversion \<^verbatim>\<open>float64(n)\<close> and the platform's
  conversion of an unrepresentable value are parameters. \<^verbatim>\<open>math.Ceil\<close> is exact,
  and so is \<^verbatim>\<open>int(x)\<close> on a finite \<open>x\<close> within range (it truncates towards
  zero).
\<close>

record f64_ops =
  f64_mul :: "float64 \<Rightarrow> float64 \<Rightarrow> float64"
  f64_div :: "float64 \<Rightarrow> float64 \<Rightarrow> float64"
  f64_of_int :: "int \<Rightarrow> float64"
  int_of_unrepresentable :: "float64 \<Rightarrow> int"

definition Ceil :: "float64 \<Rightarrow> float64" where
  "Ceil x = (case x of Finite r \<Rightarrow> Finite (of_int \<lceil>r\<rceil>) | _ \<Rightarrow> x)"

definition int_of_f64 :: "f64_ops \<Rightarrow> float64 \<Rightarrow> int" where
  "int_of_f64 ops x =
     (case x of
        Finite r \<Rightarrow>
          (let t = (if 0 \<le> r then \<lfloor>r\<rfloor> else \<lceil>r\<rceil>)
           in if - (2 ^ 63) \<le> t \<and> t < 2 ^ 63 then t else int_of_unrepresentable ops x)
      | _ \<Rightarrow> int_of_unrepresentable ops x)"

text \<open>
  Functions of the package whose bodies are in files that are not among the sources, and
  that the claims about this file do not look into, are parameters of the model: the
  interner's comparator \<^verbatim>\<open>cmp\<close>, the sequential miner \<^verbatim>\<open>fpGrowth\<close> and
  the rule generator \<^verbatim>\<open>generateRules\<close>.
\<close>

record elsewhere =
  cmp_of :: "Itemizer \<Rightarrow> Item \<Rightarrow> Item \<Rightarrow> bool"
  fpGrowth_of :: "fpTree \<Rightarrow> Item list \<Rightarrow> int \<Rightarrow> itemsetWithCount list"
  generateRules_of :: "itemsetWithCount list \<Rightarrow> int \<Rightarrow> float64 \<Rightarrow> float64 \<Rightarrow> float64 Rule list list"

text \<open>
  The file system, as the program meets it. \<^verbatim>\<open>os.Open\<close> fails, or the scanner
  yields the lines of the file and then reports \<^verbatim>\<open>scanner.Err()\<close>.
  \<^verbatim>\<open>os.Create\<close> may fail; the \<open>k\<close>-th call of the \<^verbatim>\<open>fmt.Fprint\<close> family
  on the buffered writer of a file may fail, and so may \<^verbatim>\<open>Flush\<close>.
\<close>

record world =
  openFile :: "string \<Rightarrow> go_error + (string list \<times> go_error option)"
  createFile :: "string \<Rightarrow> go_error option"
  writeErr :: "string \<Rightarrow> nat \<Rightarrow> go_error option"
  flushErr :: "string \<Rightarrow> go_error option"

text \<open>
  One chunk per call of the \<^verbatim>\<open>fmt.Fprint\<close> family: a text, or a format with its
  \<^verbatim>\<open>float64\<close> arguments (\<^verbatim>\<open>%f\<close>).
\<close>

datatype chunk = Text string | Fmt string "float64 list"

text \<open>
  The trace of what the program does to the outside. A line of the logger carries
  wall-clock durations; only the fact that a line was logged is recorded.
\<close>

datatype io_event =
    EvLog
  | EvOpen string
  | EvCreate string
  | EvWrite string chunk
  | EvFlush string
  | EvClose string

definition file_events :: "io_event list \<Rightarrow> io_event list" where
  "file_events evs = filter (\<lambda>e. e \<noteq> EvLog) evs"

section \<open>First pass: counting\<close>

definition countLine :: "Itemizer \<times> itemCount \<times> int \<Rightarrow> string \<Rightarrow> Itemizer \<times> itemCount \<times> int" where
  "countLine st line =
     (case st of (itemizer, frequency, numTransactions) \<Rightarrow>
        (case forEachItem itemizer (Split_comma line) (\<lambda>i fr. increment fr i 1) frequency of
           (itemizer', frequency') \<Rightarrow> (itemizer', frequency', numTransactions + 1)))"

definition countItems :: "world \<Rightarrow> string \<Rightarrow> (go_error + (Itemizer \<times> itemCount \<times> int)) \<times> io_event list" where
  "countItems w path =
     (case openFile w path of
        Inl err \<Rightarrow> (Inl err, [EvOpen path])
      | Inr (lines, scanned) \<Rightarrow>
          (let st = foldl countLine (newItemizer, makeCounts, 0) lines
           in ((case scanned of Some err \<Rightarrow> Inl err | None \<Rightarrow> Inr st),
               [EvOpen path, EvClose path])))"

section \<open>Second pass: building the tree\<close>

definition minCount_of :: "f64_ops \<Rightarrow> float64 \<Rightarrow> int \<Rightarrow> int" where
  "minCount_of ops minSupport numTransactions =
     max 1 (int_of_f64 ops (Ceil (f64_mul ops minSupport (f64_of_int ops numTransactions))))"

text \<open>
  \<^verbatim>\<open>sort.SliceStable\<close> of Go's standard library, by its contract: the slice is
  sorted by the comparison and elements that it does not order keep their original order.
\<close>

fun insert_stable :: "('a \<Rightarrow> 'a \<Rightarrow> bool) \<Rightarrow> 'a \<Rightarrow> 'a list \<Rightarrow> 'a list" where
  "insert_stable lt x [] = [x]"
| "insert_stable lt x (y # ys) =
     (if lt y x then y # insert_stable lt x ys else x # y # ys)"

definition SliceStable :: "('a \<Rightarrow> 'a \<Rightarrow> bool) \<Rightarrow> 'a list \<Rightarrow> 'a list" where
  "SliceStable lt xs = foldr (insert_stable lt) xs []"

text \<open>The comparison closure of the sort, on the items it compares.\<close>

definition transactionLess :: "elsewhere \<Rightarrow> Itemizer \<Rightarrow> itemCount \<Rightarrow> Item \<Rightarrow> Item \<Rightarrow> bool" where
  "transactionLess ext itemizer frequency a b =
     (if get frequency a = get frequency b then cmp_of ext itemizer a b
      else get frequency a > get frequency b)"

text \<open>The body of the scanning loop of \<^verbatim>\<open>generateFrequentItemsets\<close>.\<close>

definition addTransaction :: "elsewhere \<Rightarrow> Itemizer \<Rightarrow> itemCount \<Rightarrow> int \<Rightarrow> fpTree \<Rightarrow> string \<Rightarrow> fpTree" where
  "addTransaction ext itemizer frequency minCount tree line =
     (let transaction = filter_tokens itemizer (Split_comma line) (\<lambda>i. get frequency i \<ge> minCount)
      in if length transaction = 0 then tree
         else Insert tree (SliceStable (transactionLess ext itemizer frequency) transaction) 1)"

definition generateFrequentItemsets ::
  "elsewhere \<Rightarrow> f64_ops \<Rightarrow> world \<Rightarrow> string \<Rightarrow> float64 \<Rightarrow> Itemizer \<Rightarrow> itemCount \<Rightarrow> int
     \<Rightarrow> (go_error + itemsetWithCount list) \<times> io_event list" where
  "generateFrequentItemsets ext ops w path minSupport itemizer frequency numTransactions =
     (case openFile w path of
        Inl err \<Rightarrow> (Inl err, [EvOpen path])
      | Inr (lines, scanned) \<Rightarrow>
          (let minCount = minCount_of ops minSupport numTransactions;
               tree = foldl (addTransaction ext itemizer frequency minCount) newTree lines
           in ((case scanned of
                  Some err \<Rightarrow> Inl err
                | None \<Rightarrow> Inr (fpGrowth_of ext tree [] minCount)),
               [EvOpen path, EvClose path])))"

section \<open>Writing the results\<close>

definition newline :: string where
  "newline = [CHR 0x0A]"

fun itemChunks :: "Itemizer \<Rightarrow> bool \<Rightarrow> Item list \<Rightarrow> chunk list" where
  "itemChunks itemizer first [] = []"
| "itemChunks itemizer first (i # rest) =
     (if \<not> first then [Text '' ''] else []) @ Text (toStr itemizer i) # itemChunks itemizer False rest"

text \<open>The calls of the \<^verbatim>\<open>fmt.Fprint\<close> family that the two writers make, in order.\<close>

definition itemsetsChunks :: "f64_ops \<Rightarrow> Itemizer \<Rightarrow> int \<Rightarrow> itemsetWithCount list \<Rightarrow> chunk list" where
  "itemsetsChunks ops itemizer numTransactions itemsets =
     Text (''Itemset,Support'' @ newline) #
     concat (map (\<lambda>iwc. itemChunks itemizer True (itemset iwc) @
                   [Fmt ('' %f'' @ newline)
                      [f64_div ops (f64_of_int ops (count_iwc iwc)) (f64_of_int ops numTransactions)]])
               itemsets)"

definition rulesChunks :: "Itemizer \<Rightarrow> float64 Rule list list \<Rightarrow> chunk list" where
  "rulesChunks itemizer rules =
     Text (''Antecedent => Consequent,Confidence,Lift,Support'' @ newline) #
     concat (map (\<lambda>rule. itemChunks itemizer True (Antecedent rule) @ [Text '' => ''] @
                   itemChunks itemizer True (Consequent rule) @
                   [Fmt ('',%f,%f,%f'' @ newline) [Confidence rule, Lift rule, Support rule]])
               (concat rules))"

text \<open>Each call is made in turn; the first one that fails ends the writer with its error.\<close>

fun write_calls :: "world \<Rightarrow> string \<Rightarrow> nat \<Rightarrow> chunk list \<Rightarrow> go_error option \<times> io_event list" where
  "write_calls w path k [] = (None, [])"
| "write_calls w path k (c # cs) =
     (case writeErr w path k of
        Some err \<Rightarrow> (Some err, [EvWrite path c])
      | None \<Rightarrow> (case write_calls w path (Suc k) cs of (r, evs) \<Rightarrow> (r, EvWrite path c # evs)))"

definition write_output :: "world \<Rightarrow> string \<Rightarrow> chunk list \<Rightarrow> go_error option \<times> io_event list" where
  "write_output w path cs =
     (case createFile w path of
        Some err \<Rightarrow> (Some err, [EvCreate path])
      | None \<Rightarrow>
          (case write_calls w path 0 cs of
             (Some err, evs) \<Rightarrow> (Some err, EvCreate path # evs @ [EvClose path])
           | (None, evs) \<Rightarrow> (flushErr w path, EvCreate path # evs @ [EvFlush path, EvClose path])))"

definition writeItemsets ::
  "f64_ops \<Rightarrow> world \<Rightarrow> itemsetWithCount list \<Rightarrow> string \<Rightarrow> Itemizer \<Rightarrow> int \<Rightarrow> go_error option \<times> io_event list" where
  "writeItemsets ops w itemsets outputPath itemizer numTransactions =
     write_output w outputPath (itemsetsChunks ops itemizer numTransactions itemsets)"

definition writeRules :: "world \<Rightarrow> float64 Rule list list \<Rightarrow> string \<Rightarrow> Itemizer \<Rightarrow> go_error option \<times> io_event list" where
  "writeRules w rules outputPath itemizer = write_output w outputPath (rulesChunks itemizer rules)"

definition countRules :: "float64 Rule list list \<Rightarrow> int" where
  "countRules rules = foldl (\<lambda>n chunk. n + int (length chunk)) 0 rules"

section \<open>The entry point\<close>

text \<open>
  \<^verbatim>\<open>MineAssociationRules\<close> returns its error (\<open>None\<close> is Go's \<^verbatim>\<open>nil\<close>) and
  leaves the trace of its effects. The results of the two writers are dropped, as in the
  source.
\<close>

definition MineAssociationRules :: "elsewhere \<Rightarrow> f64_ops \<Rightarrow> world \<Rightarrow> Arguments \<Rightarrow> go_error option \<times> io_event list" where
  "MineAssociationRules ext ops w args =
     (case Validate args of
        Some err \<Rightarrow> (Some err, [EvLog])
      | None \<Rightarrow>
          (case countItems w (Input args) of
             (Inl err, ev1) \<Rightarrow> (Some err, [EvLog, EvLog] @ ev1)
           | (Inr (itemizer, frequency, numTransactions), ev1) \<Rightarrow>
               (case generateFrequentItemsets ext ops w (Input args) (MinSupport args)
                       itemizer frequency numTransactions of
                  (Inl err, ev2) \<Rightarrow> (Some err, [EvLog, EvLog] @ ev1 @ [EvLog, EvLog] @ ev2)
                | (Inr itemsWithCount, ev2) \<Rightarrow>
                    (let ev3 =
                           (if length (ItemsetsPath args) > 0
                            then [EvLog] @
                                 snd (writeItemsets ops w itemsWithCount (ItemsetsPath args)
                                        itemizer numTransactions) @ [EvLog]
                            else []);
                         rules = generateRules_of ext itemsWithCount numTransactions
                                   (MinConfidence args) (MinLift args);
                         numRules = countRules rules;
                         ev4 = [EvLog, EvLog, EvLog] @ snd (writeRules w rules (Output args) itemizer) @ [EvLog]
                     in (None, [EvLog, EvLog] @ ev1 @ [EvLog, EvLog] @ ev2 @ [EvLog] @ ev3 @ ev4)))))"

section \<open>The parallel miner of the command-line program\<close>

definition frequentItemsInTree :: "fpTree \<Rightarrow> int \<Rightarrow> Item list" where
  "frequentItemsInTree tree minCount =
     filter (\<lambda>i. get (counts tree) i > minCount) (map fst (itemList tree))"

record workerTask =
  w_tree :: fpTree
  w_item :: Item
  w_itemset :: "Item list"

record masterTask =
  m_tree :: fpTree
  m_itemset :: "Item list"
  m_items :: "Item list"

text \<open>
  The master runs in its own thread of control; what it meets at a blocking statement is
  decided by the runtime and the workers. At the \<^verbatim>\<open>select\<close> either a task arrives
  from a worker or the send to the workers goes through; at the plain receive only a task
  can arrive, and an outcome that the statement does not offer is passed over. The master
  is modelled against every sequence of such outcomes.
\<close>

datatype select_case = FromWorker masterTask | ToWorker

text \<open>
  How the master ends: it leaves the loop and closes \<^verbatim>\<open>toWorker\<close> (with the tasks
  it has sent, in order), it panics on \<^verbatim>\<open>lastTask.items[0]\<close> of an empty slice, or
  it is still blocked when the outcomes given are used up.
\<close>

datatype master_end = Closed "workerTask list" | IndexOutOfRange | Blocked

fun master_loop :: "select_case list \<Rightarrow> masterTask list \<Rightarrow> int \<Rightarrow> workerTask list \<Rightarrow> master_end" where
  "master_loop env tasks outstandingJobs sent =
     (if \<not> (length tasks > 0 \<or> outstandingJobs > 0) then Closed sent
      else if length tasks > 0 then
        (let lastTask = last tasks
         in case m_items lastTask of
              [] \<Rightarrow> IndexOutOfRange
            | item0 # rest \<Rightarrow>
                (let nextWorkerTask =
                       \<lparr>w_tree = m_tree lastTask, w_item = item0, w_itemset = m_itemset lastTask\<rparr>
                 in case env of
                      [] \<Rightarrow> Blocked
                    | FromWorker task # env' \<Rightarrow>
                        master_loop env'
                          (if length (m_items task) > 0 then tasks @ [task] else tasks)
                          (outstandingJobs - 1) sent
                    | ToWorker # env' \<Rightarrow>
                        master_loop env'
                          (if length (m_items lastTask) = 1 then butlast tasks
                           else butlast tasks @ [lastTask\<lparr>m_items := rest\<rparr>])
                          (outstandingJobs + 1) (sent @ [nextWorkerTask])))
      else
        (case env of
           [] \<Rightarrow> Blocked
         | FromWorker task # env' \<Rightarrow>
             master_loop env'
               (if length (m_items task) > 0 then tasks @ [task] else tasks)
               (outstandingJobs - 1) sent
         | ToWorker # env' \<Rightarrow> master_loop env' tasks outstandingJobs sent))"

declare master_loop.simps [simp del]

definition master :: "fpTree \<Rightarrow> int \<Rightarrow> select_case list \<Rightarrow> master_end" where
  "master initialTree minCount env =
     master_loop env
       [\<lparr>m_tree = initialTree, m_itemset = [],
         m_items = frequentItemsInTree initialTree minCount\<rparr>] 0 []"

section \<open>Rule generation\<close>

text \<open>
  Modelled from the spec: \<^verbatim>\<open>generateRules\<close> is declared in a file that is not
  among the sources. The spec: index the itemsets by their set of items, so that
  \<open>support(S)\<close> is looked up for any \<open>S\<close> of the frequent collection. For each
  itemset \<open>I\<close> with \<open>|I| \<ge> 2\<close> and each non-empty proper subset \<open>A\<close> of \<open>I\<close>, with
  \<open>C = I \ A\<close>: \<open>confidence = support(I) / support(A)\<close>; skip if
  \<open>confidence < minConfidence\<close>; \<open>lift = confidence / (support(C) / N)\<close>; skip if
  \<open>minLift > 0\<close> and \<open>lift < minLift\<close>; emit the rule with
  \<open>support = support(I) / N\<close>. The measures are the real numbers of these formulas. The
  spec does not say what is looked up for a set outside the collection; it is 0 here. The
  rules come in one chunk per itemset.
\<close>

definition support :: "itemsetWithCount list \<Rightarrow> Item set \<Rightarrow> int" where
  "support itemsets S =
     (case find (\<lambda>iwc. set (itemset iwc) = S) itemsets of
        Some iwc \<Rightarrow> count_iwc iwc
      | None \<Rightarrow> 0)"

definition rulesOfItemset :: "itemsetWithCount list \<Rightarrow> int \<Rightarrow> real \<Rightarrow> real \<Rightarrow> Item list \<Rightarrow> real Rule list" where
  "rulesOfItemset itemsets N minConfidence minLift I =
     (if length I < 2 then []
      else concat (map
        (\<lambda>A. let C = filter (\<lambda>i. i \<notin> set A) I;
                 confidence = of_int (support itemsets (set I)) / of_int (support itemsets (set A))
             in if confidence < minConfidence then []
                else let lift = confidence / (of_int (support itemsets (set C)) / of_int N)
                     in if minLift > 0 \<and> lift < minLift then []
                        else [\<lparr>Antecedent = A, Consequent = C,
                                Support = of_int (support itemsets (set I)) / of_int N,
                                Confidence = confidence, Lift = lift\<rparr>])
        (filter (\<lambda>A. A \<noteq> [] \<and> set A \<subset> set I) (subseqs I))))"

definition generateRules :: "itemsetWithCount list \<Rightarrow> int \<Rightarrow> real \<Rightarrow> real \<Rightarrow> real Rule list list" where
  "generateRules itemsets numTransactions minConfidence minLift =
     map (\<lambda>iwc. rulesOfItemset itemsets numTransactions minConfidence minLift (itemset iwc)) itemsets"

text \<open>The frequent itemsets of the spec's first scenario, with \<open>a = 0\<close>, \<open>b = 1\<close>, \<open>c = 2\<close>.\<close>

definition scenario1 :: "itemsetWithCount list" where
  "scenario1 =
     [\<lparr>itemset = [0], count_iwc = 4\<rparr>, \<lparr>itemset = [1], count_iwc = 2\<rparr>,
      \<lparr>itemset = [2], count_iwc = 2\<rparr>, \<lparr>itemset = [0, 1], count_iwc = 2\<rparr>,
      \<lparr>itemset = [0, 2], count_iwc = 2\<rparr>]"

section \<open>Example inputs\<close>

text \<open>
  An arithmetic for the examples: exact on finite values. The results of the examples are
  representable, so \<^verbatim>\<open>float64\<close> computes the same values.
\<close>

definition exact_ops :: f64_ops where
  "exact_ops =
     \<lparr>f64_mul = (\<lambda>a b. case (a, b) of (Finite x, Finite y) \<Rightarrow> Finite (x * y) | _ \<Rightarrow> NaN),
      f64_div = (\<lambda>a b. case (a, b) of (Finite x, Finite y) \<Rightarrow> (if y = 0 then NaN else Finite (x / y)) | _ \<Rightarrow> NaN),
      f64_of_int = (\<lambda>n. Finite (of_int n)),
      int_of_unrepresentable = (\<lambda>x. 0)\<rparr>"

text \<open>An interner that compares items by id, with a miner and a rule generator that find nothing.\<close>

definition by_id :: elsewhere where
  "by_id = \<lparr>cmp_of = (\<lambda>itemizer a b. a < b), fpGrowth_of = (\<lambda>tree prefix minCount. []),
            generateRules_of = (\<lambda>itemsets n minConfidence minLift. [])\<rparr>"

text \<open>No file can be opened or created.\<close>

definition no_files :: world where
  "no_files = \<lparr>openFile = (\<lambda>p. Inl (IOError ''no such file or directory'')),
               createFile = (\<lambda>p. Some (IOError ''permission denied'')),
               writeErr = (\<lambda>p k. None), flushErr = (\<lambda>p. None)\<rparr>"

text \<open>
  Every path reads as the two lines \<^verbatim>\<open>a,b\<close> and \<^verbatim>\<open>a\<close>; no file can be
  created.
\<close>

definition two_lines :: world where
  "two_lines = \<lparr>openFile = (\<lambda>p. Inr ([''a,b'', ''a''], None)),
                createFile = (\<lambda>p. Some (IOError ''permission denied'')),
                writeErr = (\<lambda>p k. None), flushErr = (\<lambda>p. None)\<rparr>"

text \<open>The interner and the frequencies after the first pass over these two lines.\<close>

definition ab_itemizer :: Itemizer where
  "ab_itemizer = \<lparr>strToItem = [''a'' \<mapsto> 0, ''b'' \<mapsto> 1], itemToStr = [0 \<mapsto> ''a'', 1 \<mapsto> ''b''], numItems = 2\<rparr>"

definition ab_frequency :: itemCount where
  "ab_frequency = [0 \<mapsto> 2, 1 \<mapsto> 1]"

text \<open>
  The spec's first scenario: the lines \<^verbatim>\<open>a,b,c\<close>, \<^verbatim>\<open>a,b\<close>,
  \<^verbatim>\<open>a,c\<close> and \<^verbatim>\<open>a\<close>, with the interner and the frequencies after the
  first pass and the tree after the second pass with \<open>minCount = 2\<close>.
\<close>

definition scenario1_file :: world where
  "scenario1_file = \<lparr>openFile = (\<lambda>p. Inr ([''a,b,c'', ''a,b'', ''a,c'', ''a''], None)),
                createFile = (\<lambda>p. None), writeErr = (\<lambda>p k. None), flushErr = (\<lambda>p. None)\<rparr>"

definition abc_itemizer :: Itemizer where
  "abc_itemizer = \<lparr>strToItem = [''a'' \<mapsto> 0, ''b'' \<mapsto> 1, ''c'' \<mapsto> 2],
                    itemToStr = [0 \<mapsto> ''a'', 1 \<mapsto> ''b'', 2 \<mapsto> ''c''], numItems = 3\<rparr>"

definition abc_frequency :: itemCount where
  "abc_frequency = [0 \<mapsto> 4, 1 \<mapsto> 2, 2 \<mapsto> 2]"

definition scenario1_tree :: fpTree where
  "scenario1_tree = foldl (addTransaction by_id abc_itemizer abc_frequency 2) newTree
                      [''a,b,c'', ''a,b'', ''a,c'', ''a'']"

text \<open>The interner after the first pass over the single line \<^verbatim>\<open>a\<close>.\<close>

definition a_itemizer :: Itemizer where
  "a_itemizer = \<lparr>strToItem = [''a'' \<mapsto> 0], itemToStr = [0 \<mapsto> ''a''], numItems = 1\<rparr>"

text \<open>Every path reads as the single line \<^verbatim>\<open>a\<close>.\<close>

definition one_line :: world where
  "one_line = \<lparr>openFile = (\<lambda>p. Inr ([''a''], None)),
                createFile = (\<lambda>p. None), writeErr = (\<lambda>p k. None), flushErr = (\<lambda>p. None)\<rparr>"

definition valid_args :: Arguments where
  "valid_args = \<lparr>Input = ''in.csv'', Output = ''rules.txt'', MinSupport = Finite (1/2),
      MinConfidence = Finite (1/2), MinLift = Finite 0, ItemsetsPath = ''itemsets.txt''\<rparr>"

section \<open>Validation\<close>

lemma f64_lt_Finite_left: "x \<noteq> NaN \<Longrightarrow>
  (f64_lt x (Finite 0) \<or> f64_gt x (Finite 1)) = (\<not> (\<exists>r. x = Finite r \<and> 0 \<le> r \<and> r \<le> 1))"
  by (cases x) (auto simp: f64_gt_def)

lemma lift_check: "(f64_ne x (Finite 0) \<and> f64_lt x (Finite 1)) =
   (x = NegInf \<or> (\<exists>r. x = Finite r \<and> r \<noteq> 0 \<and> r < 1))"
  by (cases x) (auto simp: f64_ne_def)

lemma first_failing:
  fixes v :: "go_error option"
  assumes "v = (if \<not> S then Some ErrMinSupportOutOfRange
                else if \<not> C then Some ErrMinConfidenceOutOfRange
                else if L then Some ErrMinLiftOutOfRange else None)"
  shows "(v = Some ErrMinSupportOutOfRange \<longleftrightarrow> \<not> S)
       \<and> (v = Some ErrMinConfidenceOutOfRange \<longleftrightarrow> S \<and> \<not> C)
       \<and> (v = Some ErrMinLiftOutOfRange \<longleftrightarrow> S \<and> C \<and> L)"
  using assms by (cases S; cases C; cases L; simp)

text \<open>
  Claim C7, as the code has it. \<^verbatim>\<open>Validate\<close> reports the first check that fails,
  in the order MinSupport, MinConfidence, MinLift. For a MinSupport and a MinConfidence
  that are not NaN: it returns \<^verbatim>\<open>ErrMinSupportOutOfRange\<close> exactly when MinSupport is outside
  \<open>[0,1]\<close>; \<^verbatim>\<open>ErrMinConfidenceOutOfRange\<close> exactly when MinSupport is inside
  and MinConfidence is outside \<open>[0,1]\<close>; \<^verbatim>\<open>ErrMinLiftOutOfRange\<close> exactly
  when both are inside and MinLift is not zero and less than 1 (so there \<open>0\<close> passes and
  \<open>0.5\<close> is rejected). \<^verbatim>\<open>MineAssociationRules\<close> returns such an error when
  it has only logged its banner: no file has been opened or created.
\<close>

theorem Validate_first_failing_check:
  assumes "MinSupport a \<noteq> NaN" and "MinConfidence a \<noteq> NaN"
  shows "(Validate a = Some ErrMinSupportOutOfRange \<longleftrightarrow>
            \<not> (\<exists>r. MinSupport a = Finite r \<and> 0 \<le> r \<and> r \<le> 1))
       \<and> (Validate a = Some ErrMinConfidenceOutOfRange \<longleftrightarrow>
            (\<exists>r. MinSupport a = Finite r \<and> 0 \<le> r \<and> r \<le> 1)
            \<and> \<not> (\<exists>r. MinConfidence a = Finite r \<and> 0 \<le> r \<and> r \<le> 1))
       \<and> (Validate a = Some ErrMinLiftOutOfRange \<longleftrightarrow>
            (\<exists>r. MinSupport a = Finite r \<and> 0 \<le> r \<and> r \<le> 1)
            \<and> (\<exists>r. MinConfidence a = Finite r \<and> 0 \<le> r \<and> r \<le> 1)
            \<and> (MinLift a = NegInf \<or> (\<exists>r. MinLift a = Finite r \<and> r \<noteq> 0 \<and> r < 1)))
       \<and> (\<forall>err. Validate a = Some err \<longrightarrow>
            MineAssociationRules ext ops w a = (Some err, [EvLog]) \<and> file_events [EvLog] = [])"
proof -
  note s = f64_lt_Finite_left [OF assms(1)]
  note c = f64_lt_Finite_left [OF assms(2)]
  note l = lift_check [of "MinLift a"]
  have v: "Validate a =
     (if \<not> (\<exists>r. MinSupport a = Finite r \<and> 0 \<le> r \<and> r \<le> 1) then Some ErrMinSupportOutOfRange
      else if \<not> (\<exists>r. MinConfidence a = Finite r \<and> 0 \<le> r \<and> r \<le> 1) then Some ErrMinConfidenceOutOfRange
      else if (MinLift a = NegInf \<or> (\<exists>r. MinLift a = Finite r \<and> r \<noteq> 0 \<and> r < 1)) then Some ErrMinLiftOutOfRange
      else None)"
    unfolding Validate_def s c l by simp
  have m: "\<forall>err. Validate a = Some err \<longrightarrow>
            MineAssociationRules ext ops w a = (Some err, [EvLog]) \<and> file_events [EvLog] = []"
    by (simp add: MineAssociationRules_def file_events_def)
  show ?thesis
    using first_failing [OF v] m by blast
qed

text \<open>
  The theorem at thresholds \<open>0.5\<close>, \<open>0.5\<close> and MinLift \<open>0.5\<close>: the lift is
  rejected, before any file is touched.
\<close>

theorem Validate_first_failing_check_witness:
  "Validate \<lparr>Input = ''in.csv'', Output = ''rules.txt'', MinSupport = Finite (1/2),
      MinConfidence = Finite (1/2), MinLift = Finite (1/2), ItemsetsPath = []\<rparr>
     = Some ErrMinLiftOutOfRange
   \<and> (\<forall>ext ops w. MineAssociationRules ext ops w
         \<lparr>Input = ''in.csv'', Output = ''rules.txt'', MinSupport = Finite (1/2),
          MinConfidence = Finite (1/2), MinLift = Finite (1/2), ItemsetsPath = []\<rparr>
        = (Some ErrMinLiftOutOfRange, [EvLog]))"
proof -
  let ?a = "\<lparr>Input = ''in.csv'', Output = ''rules.txt'', MinSupport = Finite (1/2),
      MinConfidence = Finite (1/2), MinLift = Finite (1/2), ItemsetsPath = []\<rparr>"
  have h1: "MinSupport ?a \<noteq> NaN" and h2: "MinConfidence ?a \<noteq> NaN"
    by simp_all
  have s: "\<exists>r. MinSupport ?a = Finite r \<and> 0 \<le> r \<and> r \<le> 1"
    by (rule exI [of _ "1/2"]) simp
  have c: "\<exists>r. MinConfidence ?a = Finite r \<and> 0 \<le> r \<and> r \<le> 1"
    by (rule exI [of _ "1/2"]) simp
  have l: "\<exists>r. MinLift ?a = Finite r \<and> r \<noteq> 0 \<and> r < 1"
    by (rule exI [of _ "1/2"]) simp
  have v: "Validate ?a = Some ErrMinLiftOutOfRange"
    using Validate_first_failing_check [OF h1 h2] s c l by blast
  have "MineAssociationRules ext ops w ?a = (Some ErrMinLiftOutOfRange, [EvLog])" for ext ops w
    using Validate_first_failing_check [OF h1 h2, of ext ops w] v by blast
  with v show ?thesis by blast
qed

text \<open>
  Claim C7 as it is stated fails: with MinSupport \<open>2\<close> and MinConfidence \<open>2\<close> the
  confidence is outside \<open>[0,1]\<close>, and the error returned is the one of MinSupport.
\<close>

theorem Validate_confidence_counterexample:
  "Validate \<lparr>Input = ''in.csv'', Output = ''rules.txt'', MinSupport = Finite 2,
      MinConfidence = Finite 2, MinLift = Finite 0, ItemsetsPath = []\<rparr>
     = Some ErrMinSupportOutOfRange
   \<and> Validate \<lparr>Input = ''in.csv'', Output = ''rules.txt'', MinSupport = Finite 2,
      MinConfidence = Finite 2, MinLift = Finite 0, ItemsetsPath = []\<rparr>
     \<noteq> Some ErrMinConfidenceOutOfRange
   \<and> \<not> ((2::real) \<le> 1)"
  by (simp add: Validate_def f64_gt_def)

text \<open>
  Claim C10. \<^verbatim>\<open>Validate\<close> looks at the three thresholds only: arguments that
  agree on them get the same answer, whatever their paths. When the arguments are valid
  and the input cannot be opened, \<^verbatim>\<open>MineAssociationRules\<close> returns the error of
  \<^verbatim>\<open>os.Open\<close> in \<^verbatim>\<open>countItems\<close>, the first file operation of the run.
\<close>

theorem Validate_only_thresholds:
  "(MinSupport a = MinSupport b \<and> MinConfidence a = MinConfidence b \<and> MinLift a = MinLift b
      \<longrightarrow> Validate a = Validate b)
   \<and> (Validate a = None \<and> openFile w (Input a) = Inl err
      \<longrightarrow> MineAssociationRules ext ops w a = (Some err, [EvLog, EvLog, EvOpen (Input a)]))"
  by (simp add: Validate_def MineAssociationRules_def countItems_def)

text \<open>
  The theorem at empty paths: they pass \<^verbatim>\<open>Validate\<close> as any other path does,
  and the run ends with the error of opening the input.
\<close>

theorem Validate_only_thresholds_witness:
  "Validate \<lparr>Input = [], Output = [], MinSupport = Finite (1/2),
      MinConfidence = Finite (1/2), MinLift = Finite 0, ItemsetsPath = []\<rparr> = None
   \<and> Validate \<lparr>Input = [], Output = [], MinSupport = Finite (1/2),
      MinConfidence = Finite (1/2), MinLift = Finite 0, ItemsetsPath = []\<rparr>
     = Validate \<lparr>Input = ''in.csv'', Output = ''rules.txt'', MinSupport = Finite (1/2),
      MinConfidence = Finite (1/2), MinLift = Finite 0, ItemsetsPath = []\<rparr>
   \<and> (\<forall>ext ops. MineAssociationRules ext ops no_files
         \<lparr>Input = [], Output = [], MinSupport = Finite (1/2),
          MinConfidence = Finite (1/2), MinLift = Finite 0, ItemsetsPath = []\<rparr>
        = (Some (IOError ''no such file or directory''), [EvLog, EvLog, EvOpen []]))"
proof -
  let ?a = "\<lparr>Input = [], Output = [], MinSupport = Finite (1/2),
      MinConfidence = Finite (1/2), MinLift = Finite 0, ItemsetsPath = []\<rparr>"
  let ?b = "\<lparr>Input = ''in.csv'', Output = ''rules.txt'', MinSupport = Finite (1/2),
      MinConfidence = Finite (1/2), MinLift = Finite 0, ItemsetsPath = []\<rparr>"
  have v: "Validate ?a = None"
    by (simp add: Validate_def f64_gt_def f64_ne_def)
  have e: "Validate ?a = Validate ?b"
    using Validate_only_thresholds [of ?a ?b] by simp
  have o: "openFile no_files (Input ?a) = Inl (IOError ''no such file or directory'')"
    by (simp add: no_files_def)
  have "MineAssociationRules ext ops no_files ?a
        = (Some (IOError ''no such file or directory''), [EvLog, EvLog, EvOpen []])" for ext ops
    using Validate_only_thresholds [of ?a ?a no_files "IOError ''no such file or directory''" ext ops] v o
    by simp
  with v e show ?thesis by simp
qed

section \<open>The two passes\<close>

lemma countItems_two_lines:
  "countItems two_lines p = (Inr (ab_itemizer, ab_frequency, 2), [EvOpen p, EvClose p])"
  by (simp add: countItems_def two_lines_def countLine_def intern_def newItemizer_def
      makeCounts_def increment_def get_def ab_itemizer_def ab_frequency_def fun_upd_twist)

lemma int_of_f64_Ceil:
  "- (2 ^ 63) \<le> \<lceil>p\<rceil> \<Longrightarrow> \<lceil>p\<rceil> < 2 ^ 63 \<Longrightarrow> int_of_f64 ops (Ceil (Finite p)) = \<lceil>p\<rceil>"
  by (simp add: int_of_f64_def Ceil_def)

lemma filter_tokens_filter:
  "filter_tokens it toks keep = filter keep (filter_tokens it toks (\<lambda>i. True))"
  by (induction toks) (auto split: option.splits)

text \<open>
  Claim C6. When the \<^verbatim>\<open>float64\<close> product of \<^verbatim>\<open>minSupport\<close> and
  \<^verbatim>\<open>numTransactions\<close> is the finite number \<open>p\<close> (within the range of
  \<^verbatim>\<open>int\<close>, as it is for a support in \<open>[0,1]\<close>), the threshold is
  \<open>max(1, \<lceil>p\<rceil>)\<close>, and the filter of the second pass keeps, of the items of a
  line, exactly those whose frequency is at least that threshold.
\<close>

theorem minCount_is_max_1_ceiling:
  assumes "f64_mul ops minSupport (f64_of_int ops numTransactions) = Finite p"
    and "- (2 ^ 63) \<le> \<lceil>p\<rceil>" and "\<lceil>p\<rceil> < 2 ^ 63"
  shows "minCount_of ops minSupport numTransactions = max 1 \<lceil>p\<rceil>
       \<and> set (filter_tokens itemizer toks
               (\<lambda>i. get frequency i \<ge> minCount_of ops minSupport numTransactions))
         = {i \<in> set (filter_tokens itemizer toks (\<lambda>i. True)). get frequency i \<ge> max 1 \<lceil>p\<rceil>}"
proof -
  have m: "minCount_of ops minSupport numTransactions = max 1 \<lceil>p\<rceil>"
    unfolding minCount_of_def assms(1) int_of_f64_Ceil [OF assms(2) assms(3)] by (rule refl)
  show ?thesis
    unfolding m by (subst filter_tokens_filter) auto
qed

text \<open>
  The theorem at \<^verbatim>\<open>minSupport = 0.5\<close> and four transactions: the threshold is 2,
  and of \<open>a\<close> (frequency 2) and \<open>b\<close> (frequency 1) only \<open>a\<close> is kept.
\<close>

theorem minCount_is_max_1_ceiling_witness:
  "minCount_of exact_ops (Finite (1/2)) 4 = 2
   \<and> set (filter_tokens ab_itemizer [''a'', ''b'']
            (\<lambda>i. get ab_frequency i \<ge> minCount_of exact_ops (Finite (1/2)) 4)) = {0}"
proof -
  have p: "f64_mul exact_ops (Finite (1/2)) (f64_of_int exact_ops 4) = Finite 2"
    by (simp add: exact_ops_def)
  have lo: "- (2 ^ 63) \<le> \<lceil>2::real\<rceil>" and hi: "\<lceil>2::real\<rceil> < 2 ^ 63"
    by simp_all
  note t = minCount_is_max_1_ceiling [OF p lo hi, of ab_itemizer "[''a'', ''b'']" ab_frequency]
  have a: "filter_tokens ab_itemizer [''a'', ''b''] (\<lambda>i. True) = [0, 1]"
    by (simp add: ab_itemizer_def)
  from t have m: "minCount_of exact_ops (Finite (1/2)) 4 = max 1 \<lceil>2::real\<rceil>"
    by (rule conjunct1)
  from t have s: "set (filter_tokens ab_itemizer [''a'', ''b'']
            (\<lambda>i. get ab_frequency i \<ge> minCount_of exact_ops (Finite (1/2)) 4))
      = {i \<in> set (filter_tokens ab_itemizer [''a'', ''b''] (\<lambda>i. True)). get ab_frequency i \<ge> max 1 \<lceil>2::real\<rceil>}"
    by (rule conjunct2)
  have "{i \<in> set [0, 1::int]. get ab_frequency i \<ge> max 1 \<lceil>2::real\<rceil>} = {0}"
    by (auto simp: ab_frequency_def get_def)
  with s a have "set (filter_tokens ab_itemizer [''a'', ''b'']
            (\<lambda>i. get ab_frequency i \<ge> minCount_of exact_ops (Finite (1/2)) 4)) = {0}"
    by metis
  moreover from m have "minCount_of exact_ops (Finite (1/2)) 4 = 2"
    by simp
  ultimately show ?thesis by blast
qed

lemma mset_insert_stable: "mset (insert_stable lt x ys) = add_mset x (mset ys)"
  by (induction ys) auto

lemma mset_SliceStable: "mset (SliceStable lt xs) = mset xs"
  by (induction xs) (auto simp: SliceStable_def mset_insert_stable)

lemma set_insert_stable: "set (insert_stable lt x ys) = insert x (set ys)"
  by (induction ys) auto

lemma sorted_insert_stable:
  assumes asym: "\<And>a b. lt a b \<Longrightarrow> \<not> lt b a"
    and negtrans: "\<And>a b c. lt a c \<Longrightarrow> lt a b \<or> lt b c"
    and srt: "sorted_wrt (\<lambda>a b. \<not> lt b a) ys"
  shows "sorted_wrt (\<lambda>a b. \<not> lt b a) (insert_stable lt x ys)"
  using srt
proof (induction ys)
  case Nil
  then show ?case by simp
next
  case (Cons y ys)
  show ?case
  proof (cases "lt y x")
    case True
    have "\<not> lt z y" if "z \<in> set ys" for z
      using Cons.prems that by auto
    moreover have "\<not> lt x y"
      using True asym by blast
    ultimately show ?thesis
      using True Cons by (auto simp: set_insert_stable)
  next
    case False
    have "\<not> lt z x" if "z \<in> set ys" for z
    proof
      assume "lt z x"
      then have "lt z y \<or> lt y x" by (rule negtrans)
      moreover have "\<not> lt z y" using Cons.prems that by auto
      ultimately show False using False by blast
    qed
    then show ?thesis
      using False Cons.prems by auto
  qed
qed

lemma sorted_SliceStable:
  assumes "\<And>a b. lt a b \<Longrightarrow> \<not> lt b a"
    and "\<And>a b c. lt a c \<Longrightarrow> lt a b \<or> lt b c"
  shows "sorted_wrt (\<lambda>a b. \<not> lt b a) (SliceStable lt xs)"
proof (induction xs)
  case Nil
  then show ?case by (simp add: SliceStable_def)
next
  case (Cons x xs)
  have "SliceStable lt (x # xs) = insert_stable lt x (SliceStable lt xs)"
    by (simp add: SliceStable_def)
  then show ?case
    using sorted_insert_stable [of lt "SliceStable lt xs" x] assms Cons by simp
qed

lemma stable_insert_stable:
  assumes negtrans: "\<And>a b c. lt a c \<Longrightarrow> lt a b \<or> lt b c"
  shows "filter (\<lambda>y. \<not> lt k y \<and> \<not> lt y k) (insert_stable lt x ys)
       = filter (\<lambda>y. \<not> lt k y \<and> \<not> lt y k) (x # ys)"
proof (induction ys)
  case Nil
  then show ?case by simp
next
  case (Cons y ys)
  show ?case
  proof (cases "lt y x")
    case True
    then have "lt y k \<or> lt k x" by (rule negtrans)
    then have "\<not> ((\<not> lt k y \<and> \<not> lt y k) \<and> (\<not> lt k x \<and> \<not> lt x k))" by blast
    then show ?thesis using True Cons by auto
  next
    case False
    then show ?thesis by simp
  qed
qed

lemma stable_SliceStable:
  assumes "\<And>a b c. lt a c \<Longrightarrow> lt a b \<or> lt b c"
  shows "filter (\<lambda>y. \<not> lt k y \<and> \<not> lt y k) (SliceStable lt xs)
       = filter (\<lambda>y. \<not> lt k y \<and> \<not> lt y k) xs"
proof (induction xs)
  case Nil
  then show ?case by (simp add: SliceStable_def)
next
  case (Cons x xs)
  have "SliceStable lt (x # xs) = insert_stable lt x (SliceStable lt xs)"
    by (simp add: SliceStable_def)
  then show ?case
    using stable_insert_stable [of lt k x "SliceStable lt xs"] assms Cons by simp
qed

lemma transactionLess_asym:
  assumes "\<forall>a b. cmp_of ext itemizer a b \<longrightarrow> \<not> cmp_of ext itemizer b a"
  shows "transactionLess ext itemizer frequency a b \<Longrightarrow> \<not> transactionLess ext itemizer frequency b a"
  using assms by (auto simp: transactionLess_def split: if_splits)

lemma transactionLess_negtrans:
  assumes "\<forall>a b c. cmp_of ext itemizer a c \<longrightarrow> cmp_of ext itemizer a b \<or> cmp_of ext itemizer b c"
  shows "transactionLess ext itemizer frequency a c \<Longrightarrow>
         transactionLess ext itemizer frequency a b \<or> transactionLess ext itemizer frequency b c"
  using assms by (auto simp: transactionLess_def split: if_splits)

lemma sorted_wrt_weaken:
  "sorted_wrt P xs \<Longrightarrow> (\<And>a b. P a b \<Longrightarrow> Q a b) \<Longrightarrow> sorted_wrt Q xs"
  by (induction xs) auto

text \<open>
  Claim C5. For a comparator \<^verbatim>\<open>cmp\<close> that is a strict weak order (as a strict
  total order is), the loop body of the second pass does this to a line: \<open>kept\<close> are
  the items of the line whose frequency is at least \<open>minCount\<close>; if none is left the
  tree stays as it is; otherwise \<open>ordered\<close>, the stable sort of \<open>kept\<close>, is inserted
  with weight 1. \<open>ordered\<close> has the items of \<open>kept\<close>, in decreasing frequency, ties
  in the order of \<^verbatim>\<open>cmp\<close>, and items that the comparison does not tell apart in
  the order of the line.
\<close>

theorem addTransaction_filters_sorts_inserts:
  assumes asym: "\<forall>a b. cmp_of ext itemizer a b \<longrightarrow> \<not> cmp_of ext itemizer b a"
    and negtrans: "\<forall>a b c. cmp_of ext itemizer a c \<longrightarrow> cmp_of ext itemizer a b \<or> cmp_of ext itemizer b c"
    and kept: "kept = filter (\<lambda>i. get frequency i \<ge> minCount)
                        (filter_tokens itemizer (Split_comma line) (\<lambda>i. True))"
    and ordered: "ordered = SliceStable (transactionLess ext itemizer frequency) kept"
  shows "addTransaction ext itemizer frequency minCount tree line
           = (if kept = [] then tree else Insert tree ordered 1)
       \<and> mset ordered = mset kept
       \<and> sorted_wrt (\<lambda>a b. get frequency a \<ge> get frequency b) ordered
       \<and> sorted_wrt (\<lambda>a b. get frequency a = get frequency b \<longrightarrow> \<not> cmp_of ext itemizer b a) ordered
       \<and> (\<forall>k. filter (\<lambda>i. get frequency i = get frequency k
                          \<and> \<not> cmp_of ext itemizer k i \<and> \<not> cmp_of ext itemizer i k) ordered
              = filter (\<lambda>i. get frequency i = get frequency k
                          \<and> \<not> cmp_of ext itemizer k i \<and> \<not> cmp_of ext itemizer i k) kept)"
proof -
  let ?lt = "transactionLess ext itemizer frequency"
  have k: "filter_tokens itemizer (Split_comma line) (\<lambda>i. get frequency i \<ge> minCount) = kept"
    unfolding kept by (rule filter_tokens_filter)
  have 1: "addTransaction ext itemizer frequency minCount tree line
           = (if kept = [] then tree else Insert tree ordered 1)"
    by (simp add: addTransaction_def k ordered)
  have 2: "mset ordered = mset kept"
    unfolding ordered by (rule mset_SliceStable)
  have s: "sorted_wrt (\<lambda>a b. \<not> ?lt b a) ordered"
    unfolding ordered
    by (rule sorted_SliceStable) (blast dest: transactionLess_asym [OF asym] transactionLess_negtrans [OF negtrans])+
  have 3: "sorted_wrt (\<lambda>a b. get frequency a \<ge> get frequency b) ordered"
    by (rule sorted_wrt_weaken [OF s]) (auto simp: transactionLess_def split: if_splits)
  have 4: "sorted_wrt (\<lambda>a b. get frequency a = get frequency b \<longrightarrow> \<not> cmp_of ext itemizer b a) ordered"
    by (rule sorted_wrt_weaken [OF s]) (auto simp: transactionLess_def split: if_splits)
  have e: "(\<lambda>i. get frequency i = get frequency k
                          \<and> \<not> cmp_of ext itemizer k i \<and> \<not> cmp_of ext itemizer i k)
         = (\<lambda>i. \<not> ?lt k i \<and> \<not> ?lt i k)" for k
    by (auto simp: transactionLess_def fun_eq_iff)
  have 5: "filter (\<lambda>i. get frequency i = get frequency k
                          \<and> \<not> cmp_of ext itemizer k i \<and> \<not> cmp_of ext itemizer i k) ordered
              = filter (\<lambda>i. get frequency i = get frequency k
                          \<and> \<not> cmp_of ext itemizer k i \<and> \<not> cmp_of ext itemizer i k) kept" for k
    unfolding e ordered
    by (rule stable_SliceStable) (blast dest: transactionLess_negtrans [OF negtrans])
  from 1 2 3 4 5 show ?thesis by blast
qed

text \<open>
  The theorem on the line \<^verbatim>\<open>b,c,a\<close> with frequencies \<open>a = 2\<close>, \<open>b = 1\<close>:
  with \<open>minCount = 1\<close> the path \<open>a, b\<close> is inserted, with \<open>minCount = 2\<close> the path
  \<open>a\<close>, with \<open>minCount = 3\<close> nothing.
\<close>

theorem addTransaction_filters_sorts_inserts_witness:
  "addTransaction by_id ab_itemizer ab_frequency 1 newTree ''b,c,a'' = Insert newTree [0, 1] 1
   \<and> addTransaction by_id ab_itemizer ab_frequency 2 newTree ''b,c,a'' = Insert newTree [0] 1
   \<and> addTransaction by_id ab_itemizer ab_frequency 3 newTree ''b,c,a'' = newTree"
proof -
  have asym: "\<forall>a b. cmp_of by_id ab_itemizer a b \<longrightarrow> \<not> cmp_of by_id ab_itemizer b a"
    and negtrans: "\<forall>a b c. cmp_of by_id ab_itemizer a c \<longrightarrow> cmp_of by_id ab_itemizer a b \<or> cmp_of by_id ab_itemizer b c"
    by (auto simp: by_id_def)
  have t: "filter_tokens ab_itemizer (Split_comma ''b,c,a'') (\<lambda>i. True) = [1, 0]"
    by (simp add: ab_itemizer_def)
  have k1: "[1, 0] = filter (\<lambda>i. get ab_frequency i \<ge> 1) (filter_tokens ab_itemizer (Split_comma ''b,c,a'') (\<lambda>i. True))"
    unfolding t by (simp add: ab_frequency_def get_def)
  have k2: "[0] = filter (\<lambda>i. get ab_frequency i \<ge> 2) (filter_tokens ab_itemizer (Split_comma ''b,c,a'') (\<lambda>i. True))"
    unfolding t by (simp add: ab_frequency_def get_def)
  have k3: "[] = filter (\<lambda>i. get ab_frequency i \<ge> 3) (filter_tokens ab_itemizer (Split_comma ''b,c,a'') (\<lambda>i. True))"
    unfolding t by (simp add: ab_frequency_def get_def)
  have s1: "[0, 1] = SliceStable (transactionLess by_id ab_itemizer ab_frequency) [1, 0]"
    by (simp add: SliceStable_def transactionLess_def ab_frequency_def get_def)
  have s2: "[0] = SliceStable (transactionLess by_id ab_itemizer ab_frequency) [0]"
    by (simp add: SliceStable_def)
  have s3: "[] = SliceStable (transactionLess by_id ab_itemizer ab_frequency) []"
    by (simp add: SliceStable_def)
  show ?thesis
    using addTransaction_filters_sorts_inserts [OF asym negtrans k1 s1, of newTree]
      addTransaction_filters_sorts_inserts [OF asym negtrans k2 s2, of newTree]
      addTransaction_filters_sorts_inserts [OF asym negtrans k3 s3, of newTree]
    by simp
qed

section \<open>Errors of the writers\<close>

lemma Validate_valid_args: "Validate valid_args = None"
  by (simp add: valid_args_def Validate_def f64_gt_def f64_ne_def)

text \<open>
  Claim C8 fails on the code. Where no output file can be created, both writers return
  the error of \<^verbatim>\<open>os.Create\<close>, and \<^verbatim>\<open>MineAssociationRules\<close> returns
  \<^verbatim>\<open>nil\<close>: it calls the writers and drops what they return.
\<close>

theorem MineAssociationRules_drops_write_errors:
  "MineAssociationRules ext ops two_lines valid_args =
     (None, [EvLog, EvLog, EvOpen ''in.csv'', EvClose ''in.csv'',
             EvLog, EvLog, EvOpen ''in.csv'', EvClose ''in.csv'',
             EvLog, EvLog, EvCreate ''itemsets.txt'', EvLog,
             EvLog, EvLog, EvLog, EvCreate ''rules.txt'', EvLog])
   \<and> writeItemsets ops two_lines itemsets ''itemsets.txt'' itemizer n
       = (Some (IOError ''permission denied''), [EvCreate ''itemsets.txt''])
   \<and> writeRules two_lines rules ''rules.txt'' itemizer
       = (Some (IOError ''permission denied''), [EvCreate ''rules.txt''])"
proof -
  have w1: "writeItemsets ops two_lines itemsets p itemizer n = (Some (IOError ''permission denied''), [EvCreate p])"
    for itemsets p itemizer n
    by (simp add: writeItemsets_def write_output_def two_lines_def)
  have w2: "writeRules two_lines rules p itemizer = (Some (IOError ''permission denied''), [EvCreate p])"
    for rules p itemizer
    by (simp add: writeRules_def write_output_def two_lines_def)
  have g: "generateFrequentItemsets ext ops two_lines p s it fr n =
      (Inr (fpGrowth_of ext (foldl (addTransaction ext it fr (minCount_of ops s n)) newTree [''a,b'', ''a''])
         [] (minCount_of ops s n)), [EvOpen p, EvClose p])" for p s it fr n
    by (simp add: generateFrequentItemsets_def two_lines_def Let_def)
  have "MineAssociationRules ext ops two_lines valid_args =
     (None, [EvLog, EvLog, EvOpen ''in.csv'', EvClose ''in.csv'',
             EvLog, EvLog, EvOpen ''in.csv'', EvClose ''in.csv'',
             EvLog, EvLog, EvCreate ''itemsets.txt'', EvLog,
             EvLog, EvLog, EvLog, EvCreate ''rules.txt'', EvLog])"
    unfolding MineAssociationRules_def Validate_valid_args countItems_two_lines
    by (simp add: g w1 w2 valid_args_def)
  with w1 w2 show ?thesis by simp
qed

section \<open>The parallel miner\<close>

lemma countItems_scenario1:
  "countItems scenario1_file p = (Inr (abc_itemizer, abc_frequency, 4), [EvOpen p, EvClose p])"
  apply (simp add: countItems_def scenario1_file_def countLine_def intern_def newItemizer_def
      makeCounts_def increment_def get_def abc_itemizer_def abc_frequency_def)
  apply (auto simp: fun_eq_iff)
  done

lemma scenario1_tree_eq:
  "scenario1_tree = Insert (Insert (Insert (Insert newTree [0, 1, 2] 1) [0, 1] 1) [0, 2] 1) [0] 1"
  by (simp add: scenario1_tree_def addTransaction_def abc_itemizer_def abc_frequency_def get_def
      SliceStable_def transactionLess_def by_id_def)

text \<open>
  Claim C1 fails on the code. In the spec's first scenario \<^verbatim>\<open>minSupport = 0.5\<close>
  and four transactions give \<open>minCount = 2\<close>; in the tree \<open>a\<close> counts 4, \<open>b\<close> and
  \<open>c\<close> count 2. The itemsets \<open>{b}\<close> and \<open>{c}\<close> have support 2, which is
  \<open>minCount\<close>, and \<^verbatim>\<open>frequentItemsInTree\<close> leaves \<open>b\<close> and \<open>c\<close> out: it
  asks for a count above \<open>minCount\<close>. The master sends the one task for \<open>a\<close>; the
  conditional tree of \<open>a\<close> has no items, so the reply brings no further task and the
  master closes.
\<close>

theorem frequentItemsInTree_drops_support_equal_minCount:
  "minCount_of exact_ops (Finite (1/2)) 4 = 2
   \<and> get (counts scenario1_tree) 0 = 4
   \<and> get (counts scenario1_tree) 1 = 2
   \<and> get (counts scenario1_tree) 2 = 2
   \<and> frequentItemsInTree scenario1_tree 2 = [0]
   \<and> master scenario1_tree 2
        [ToWorker, FromWorker \<lparr>m_tree = Insert newTree [] 4, m_itemset = [0], m_items = []\<rparr>]
      = Closed [\<lparr>w_tree = scenario1_tree, w_item = 0, w_itemset = []\<rparr>]"
proof -
  have c: "minCount_of exact_ops (Finite (1/2)) 4 = 2"
    by (simp add: minCount_of_def exact_ops_def int_of_f64_def Ceil_def)
  have g: "get (counts scenario1_tree) 0 = 4" "get (counts scenario1_tree) 1 = 2"
    "get (counts scenario1_tree) 2 = 2"
    by (simp_all add: scenario1_tree_eq Insert_def newTree_def makeCounts_def increment_def get_def)
  have i: "map fst (itemList scenario1_tree) = [0, 1, 2]"
    by (simp add: scenario1_tree_eq Insert_def newTree_def makeCounts_def increment_def get_def)
  have f: "frequentItemsInTree scenario1_tree 2 = [0]"
    by (simp add: frequentItemsInTree_def i g)
  have m: "master scenario1_tree 2
        [ToWorker, FromWorker \<lparr>m_tree = Insert newTree [] 4, m_itemset = [0], m_items = []\<rparr>]
      = Closed [\<lparr>w_tree = scenario1_tree, w_item = 0, w_itemset = []\<rparr>]"
    by (simp add: master_def f master_loop.simps)
  from c g f m show ?thesis by simp
qed

text \<open>
  Claim C2 fails on the code. With no transaction the tree is the new tree, it has no
  frequent item, and the master starts with one task whose \<^verbatim>\<open>items\<close> are empty:
  whatever the workers and the runtime do, it panics on \<^verbatim>\<open>lastTask.items[0]\<close>.
\<close>

theorem master_panics_on_empty_input:
  "foldl (addTransaction ext itemizer frequency minCount) newTree [] = newTree
   \<and> frequentItemsInTree newTree minCount = []
   \<and> master newTree minCount env = IndexOutOfRange"
  by (simp add: master_def frequentItemsInTree_def newTree_def master_loop.simps)

text \<open>
  Claim C3 fails on the code. The single line \<^verbatim>\<open>a\<close> with
  \<^verbatim>\<open>minSupport = 1\<close> gives \<open>minCount = 1\<close> and a tree in which \<open>a\<close> counts 1:
  no item is above \<open>minCount\<close>. The library's \<^verbatim>\<open>generateFrequentItemsets\<close>
  returns what the sequential \<^verbatim>\<open>fpGrowth\<close> returns for this tree; the master of
  the parallel miner panics on the same tree, whatever the workers and the runtime do.
\<close>

theorem master_panics_where_fpGrowth_returns:
  "countItems one_line p = (Inr (a_itemizer, [0 \<mapsto> 1], 1), [EvOpen p, EvClose p])
   \<and> minCount_of exact_ops (Finite 1) 1 = 1
   \<and> generateFrequentItemsets ext exact_ops one_line p (Finite 1) a_itemizer [0 \<mapsto> 1] 1
      = (Inr (fpGrowth_of ext (Insert newTree [0] 1) [] 1), [EvOpen p, EvClose p])
   \<and> frequentItemsInTree (Insert newTree [0] 1) 1 = []
   \<and> master (Insert newTree [0] 1) 1 env = IndexOutOfRange"
proof -
  have c: "countItems one_line p = (Inr (a_itemizer, [0 \<mapsto> 1], 1), [EvOpen p, EvClose p])"
    by (simp add: countItems_def one_line_def countLine_def intern_def newItemizer_def
      makeCounts_def increment_def get_def a_itemizer_def)
  have m: "minCount_of exact_ops (Finite 1) 1 = 1"
    by (simp add: minCount_of_def exact_ops_def int_of_f64_def Ceil_def)
  have t: "addTransaction ext a_itemizer [0 \<mapsto> 1] 1 newTree ''a'' = Insert newTree [0] 1"
    by (simp add: addTransaction_def a_itemizer_def get_def SliceStable_def)
  have g: "generateFrequentItemsets ext exact_ops one_line p (Finite 1) a_itemizer [0 \<mapsto> 1] 1
      = (Inr (fpGrowth_of ext (Insert newTree [0] 1) [] 1), [EvOpen p, EvClose p])"
    by (simp add: generateFrequentItemsets_def one_line_def m t)
  have f: "frequentItemsInTree (Insert newTree [0] 1) 1 = []"
    by (simp add: frequentItemsInTree_def Insert_def newTree_def makeCounts_def increment_def get_def)
  have p: "master (Insert newTree [0] 1) 1 env = IndexOutOfRange"
    by (simp add: master_def f master_loop.simps)
  from c m g f p show ?thesis by simp
qed

section \<open>Rules\<close>

lemma rulesOfItemset_sound:
  assumes "r \<in> set (rulesOfItemset itemsets N minConfidence minLift I)"
  shows "set (Antecedent r) \<inter> set (Consequent r) = {}
       \<and> Antecedent r \<noteq> [] \<and> Consequent r \<noteq> []
       \<and> set (Antecedent r) \<union> set (Consequent r) = set I
       \<and> Confidence r = of_int (support itemsets (set (Antecedent r) \<union> set (Consequent r)))
                          / of_int (support itemsets (set (Antecedent r)))
       \<and> Confidence r \<ge> minConfidence
       \<and> Lift r = Confidence r / (of_int (support itemsets (set (Consequent r))) / of_int N)
       \<and> (minLift > 0 \<longrightarrow> Lift r \<ge> minLift)
       \<and> Support r = of_int (support itemsets (set (Antecedent r) \<union> set (Consequent r))) / of_int N"
proof -
  from assms obtain A where A: "A \<in> set (subseqs I)" "A \<noteq> []" "set A \<subset> set I"
    and r: "r = \<lparr>Antecedent = A, Consequent = filter (\<lambda>i. i \<notin> set A) I,
                Support = of_int (support itemsets (set I)) / of_int N,
                Confidence = of_int (support itemsets (set I)) / of_int (support itemsets (set A)),
                Lift = of_int (support itemsets (set I)) / of_int (support itemsets (set A))
                       / (of_int (support itemsets (set (filter (\<lambda>i. i \<notin> set A) I))) / of_int N)\<rparr>"
    and c: "\<not> of_int (support itemsets (set I)) / of_int (support itemsets (set A)) < minConfidence"
    and l: "\<not> (minLift > 0 \<and> of_int (support itemsets (set I)) / of_int (support itemsets (set A))
                       / (of_int (support itemsets (set (filter (\<lambda>i. i \<notin> set A) I))) / of_int N) < minLift)"
    by (auto simp: rulesOfItemset_def Let_def split: if_splits)
  let ?C = "filter (\<lambda>i. i \<notin> set A) I"
  have u: "set A \<union> set ?C = set I"
    using A(3) by auto
  have n: "?C \<noteq> []"
    using A(3) by (auto simp: filter_empty_conv)
  have d: "set A \<inter> set ?C = {}"
    by auto
  have sel: "Antecedent r = A" "Consequent r = ?C"
    "Support r = of_int (support itemsets (set I)) / of_int N"
    "Confidence r = of_int (support itemsets (set I)) / of_int (support itemsets (set A))"
    "Lift r = Confidence r / (of_int (support itemsets (set ?C)) / of_int N)"
    by (simp_all add: r)
  have c': "Confidence r \<ge> minConfidence"
    using c unfolding sel(4) by simp
  have l': "minLift > 0 \<longrightarrow> Lift r \<ge> minLift"
    using l unfolding sel(5) sel(4) by auto
  show ?thesis
    unfolding sel(1) sel(2) u
    using d A(2) n sel(3) sel(4) sel(5) c' l' unfolding sel(1) sel(2) by blast
qed

text \<open>
  Claim C4, on the rule generator as the spec describes it. Every rule that is emitted
  has a non-empty antecedent and a non-empty consequent that are disjoint, and their union
  is one of the frequent itemsets given; its confidence is
  \<open>support(A \<union> C) / support(A)\<close> and at least \<open>minConfidence\<close>; its lift is
  \<open>confidence / (support(C) / N)\<close> and, when \<open>minLift > 0\<close>, at least \<open>minLift\<close>;
  its support is \<open>support(A \<union> C) / N\<close>.
\<close>

theorem generateRules_sound:
  "\<forall>r \<in> set (concat (generateRules itemsets N minConfidence minLift)).
      set (Antecedent r) \<inter> set (Consequent r) = {}
    \<and> Antecedent r \<noteq> [] \<and> Consequent r \<noteq> []
    \<and> (\<exists>iwc \<in> set itemsets. set (itemset iwc) = set (Antecedent r) \<union> set (Consequent r))
    \<and> Confidence r = of_int (support itemsets (set (Antecedent r) \<union> set (Consequent r)))
                       / of_int (support itemsets (set (Antecedent r)))
    \<and> Confidence r \<ge> minConfidence
    \<and> Lift r = Confidence r / (of_int (support itemsets (set (Consequent r))) / of_int N)
    \<and> (minLift > 0 \<longrightarrow> Lift r \<ge> minLift)
    \<and> Support r = of_int (support itemsets (set (Antecedent r) \<union> set (Consequent r))) / of_int N"
proof
  fix r
  assume "r \<in> set (concat (generateRules itemsets N minConfidence minLift))"
  then obtain iwc where i: "iwc \<in> set itemsets"
    and r: "r \<in> set (rulesOfItemset itemsets N minConfidence minLift (itemset iwc))"
    by (auto simp: generateRules_def)
  note s = rulesOfItemset_sound [OF r]
  from s have "set (itemset iwc) = set (Antecedent r) \<union> set (Consequent r)"
    by simp
  with i have "\<exists>iwc \<in> set itemsets. set (itemset iwc) = set (Antecedent r) \<union> set (Consequent r)"
    by blast
  with s show "set (Antecedent r) \<inter> set (Consequent r) = {}
    \<and> Antecedent r \<noteq> [] \<and> Consequent r \<noteq> []
    \<and> (\<exists>iwc \<in> set itemsets. set (itemset iwc) = set (Antecedent r) \<union> set (Consequent r))
    \<and> Confidence r = of_int (support itemsets (set (Antecedent r) \<union> set (Consequent r)))
                       / of_int (support itemsets (set (Antecedent r)))
    \<and> Confidence r \<ge> minConfidence
    \<and> Lift r = Confidence r / (of_int (support itemsets (set (Consequent r))) / of_int N)
    \<and> (minLift > 0 \<longrightarrow> Lift r \<ge> minLift)
    \<and> Support r = of_int (support itemsets (set (Antecedent r) \<union> set (Consequent r))) / of_int N"
    by blast
qed

lemma generateRules_scenario1:
  "generateRules scenario1 4 (1/2) 0 =
     [[], [], [],
      [\<lparr>Antecedent = [0], Consequent = [1], Support = 1/2, Confidence = 1/2, Lift = 1\<rparr>,
       \<lparr>Antecedent = [1], Consequent = [0], Support = 1/2, Confidence = 1, Lift = 1\<rparr>],
      [\<lparr>Antecedent = [0], Consequent = [2], Support = 1/2, Confidence = 1/2, Lift = 1\<rparr>,
       \<lparr>Antecedent = [2], Consequent = [0], Support = 1/2, Confidence = 1, Lift = 1\<rparr>]]"
  by (simp add: generateRules_def scenario1_def rulesOfItemset_def support_def Let_def psubset_eq)

text \<open>
  The theorem on the spec's first scenario: the rule \<open>b \<Rightarrow> a\<close> is emitted, with
  confidence 1.
\<close>

theorem generateRules_sound_witness:
  "\<lparr>Antecedent = [1], Consequent = [0], Support = 1/2, Confidence = 1, Lift = 1\<rparr>
     \<in> set (concat (generateRules scenario1 4 (1/2) 0))
   \<and> (\<exists>iwc \<in> set scenario1. set (itemset iwc) = set [1] \<union> set [0])
   \<and> (1::real) = of_int (support scenario1 (set [1] \<union> set [0])) / of_int (support scenario1 (set [1]))
   \<and> (1::real) \<ge> 1/2"
proof -
  let ?r = "\<lparr>Antecedent = [1], Consequent = [0], Support = 1/2, Confidence = 1, Lift = (1::real)\<rparr>"
  have m: "?r \<in> set (concat (generateRules scenario1 4 (1/2) 0))"
    unfolding generateRules_scenario1 by simp
  from generateRules_sound [of scenario1 4 "1/2" 0] m
  have "(\<exists>iwc \<in> set scenario1. set (itemset iwc) = set (Antecedent ?r) \<union> set (Consequent ?r))
    \<and> Confidence ?r = of_int (support scenario1 (set (Antecedent ?r) \<union> set (Consequent ?r)))
                       / of_int (support scenario1 (set (Antecedent ?r)))
    \<and> Confidence ?r \<ge> 1/2"
    by blast
  with m show ?thesis by simp
qed

end
